theory Spec2Isabelle
  imports Complex_Main
begin

section \<open>Errors\<close>

text \<open>
  The exceptions the modelled code can raise: the \<^verbatim>\<open>assert\<close> of \<^verbatim>\<open>drop_tokens\<close>,
  an index that does not fit the tensor, a failure inside a tensor operation
  (\<^verbatim>\<open>reshape\<close>, \<^verbatim>\<open>cat\<close>), and a missing attribute.
\<close>

datatype error = AssertionError | IndexError | RuntimeError | AttributeError

section \<open>Dense tensors\<close>

text \<open>
  A tensor is its shape and its elements in row-major order (the last axis varies
  fastest), which is the order \<^verbatim>\<open>reshape\<close>, \<^verbatim>\<open>nonzero\<close> and indexing of a contiguous
  tensor use. A well-formed tensor has as many elements as its shape says.
\<close>

record 'a tensor =
  shape :: "nat list"
  data :: "'a list"

definition wf_tensor :: "'a tensor \<Rightarrow> bool" where
  "wf_tensor t \<longleftrightarrow> length (data t) = prod_list (shape t)"

text \<open>The \<open>p\<close>-th block of \<open>c\<close> consecutive elements of a flat buffer.\<close>

definition chunk :: "nat \<Rightarrow> nat \<Rightarrow> 'a list \<Rightarrow> 'a list" where
  "chunk c p xs = take c (drop (p * c) xs)"

text \<open>
  Python's normalisation of a slice bound \<open>i\<close> on an axis of length \<open>n\<close>: a negative
  bound counts from the end, and the result is clamped to \<open>0..n\<close>.
\<close>

definition slice_index :: "nat \<Rightarrow> int \<Rightarrow> nat" where
  "slice_index n i = (if i < 0 then nat (max 0 (int n + i)) else min n (nat i))"

text \<open>
  \<^verbatim>\<open>t[:, lo:hi]\<close> for normalised bounds: every batch row keeps the positions
  \<open>lo..<hi\<close>. A tensor with fewer than two axes has no axis 1 (IndexError).
\<close>

definition slice_dim1 :: "nat \<Rightarrow> nat \<Rightarrow> 'a tensor \<Rightarrow> error + 'a tensor" where
  "slice_dim1 lo hi t =
     (case shape t of
        B # L # F \<Rightarrow>
          Inr \<lparr>shape = B # (hi - lo) # F,
               data = concat (map (\<lambda>b. take ((hi - lo) * prod_list F)
                                            (drop ((b * L + lo) * prod_list F) (data t)))
                                  [0..<B])\<rparr>
      | _ \<Rightarrow> Inl IndexError)"

text \<open>\<^verbatim>\<open>t[:, :n]\<close> and \<^verbatim>\<open>t[:, n:]\<close>.\<close>

definition slice_to :: "int \<Rightarrow> 'a tensor \<Rightarrow> error + 'a tensor" where
  "slice_to n t =
     (case shape t of
        B # L # F \<Rightarrow> slice_dim1 0 (slice_index L n) t
      | _ \<Rightarrow> Inl IndexError)"

definition slice_from :: "int \<Rightarrow> 'a tensor \<Rightarrow> error + 'a tensor" where
  "slice_from n t =
     (case shape t of
        B # L # F \<Rightarrow> slice_dim1 (slice_index L n) L t
      | _ \<Rightarrow> Inl IndexError)"

text \<open>Row-major conversion between a flat offset and a multi-index.\<close>

fun unravel_index :: "nat list \<Rightarrow> nat \<Rightarrow> nat list" where
  "unravel_index [] p = []"
| "unravel_index (d # ds) p = (p div prod_list ds) # unravel_index ds (p mod prod_list ds)"

fun ravel_index :: "nat list \<Rightarrow> nat list \<Rightarrow> nat" where
  "ravel_index (d # ds) (i # ix) = i * prod_list ds + ravel_index ds ix"
| "ravel_index _ _ = 0"

text \<open>
  \<^verbatim>\<open>mask.nonzero(as_tuple=True)\<close>: one index vector per axis of the mask, listing the
  coordinates of the non-zero entries in row-major order. A zero-dimensional tensor is
  treated as a one-dimensional tensor with one element.
\<close>

definition nonzero_as_tuple :: "int tensor \<Rightarrow> nat list list" where
  "nonzero_as_tuple m =
     (let s = (if shape m = [] then [1] else shape m);
          nz = map (unravel_index s) (filter (\<lambda>p. data m ! p \<noteq> 0) [0..<prod_list s])
      in map (\<lambda>d. map (\<lambda>ix. ix ! d) nz) [0..<length s])"

text \<open>
  \<^verbatim>\<open>t[ixs]\<close> for a tuple \<open>ixs\<close> of index vectors: the \<open>j\<close>-th entry of the result is
  the sub-tensor of \<open>t\<close> at the multi-index made of the \<open>j\<close>-th entries of the vectors.
  More vectors than axes, vectors of different lengths or an index outside its axis
  raise IndexError. (The vectors \<^verbatim>\<open>nonzero\<close> returns have one length, so broadcasting of
  index vectors plays no part.)
\<close>

definition index_tuple :: "'a tensor \<Rightarrow> nat list list \<Rightarrow> error + 'a tensor" where
  "index_tuple t ixs =
     (let k = length ixs;
          n = (case ixs of [] \<Rightarrow> 0 | col # _ \<Rightarrow> length col);
          c = prod_list (drop k (shape t))
      in if k = 0 then Inr t
         else if length (shape t) < k then Inl IndexError
         else if \<not> list_all (\<lambda>col. length col = n) ixs then Inl IndexError
         else if \<not> list_all (\<lambda>(col, d). list_all (\<lambda>i. i < d) col) (zip ixs (shape t))
           then Inl IndexError
         else Inr \<lparr>shape = n # drop k (shape t),
                   data = concat (map (\<lambda>j. chunk c (ravel_index (take k (shape t))
                                                        (map (\<lambda>col. col ! j) ixs)) (data t))
                                      [0..<n])\<rparr>)"

text \<open>
  The shape inference of \<^verbatim>\<open>reshape\<close>: at most one entry may be \<open>-1\<close>; it stands for the
  quotient of the element count by the product of the other entries, which must divide
  the count. When that product is zero the quotient is not determined and torch raises
  (``cannot reshape tensor of 0 elements into shape ... because the unspecified dimension
  size -1 can be any value and is ambiguous''), also for a tensor without elements. With
  no \<open>-1\<close> the product must be the element count. Every failure is a RuntimeError.
\<close>

definition infer_size :: "int list \<Rightarrow> nat \<Rightarrow> error + nat list" where
  "infer_size shp n =
     (if 1 < length (filter (\<lambda>d. d = - 1) shp) then Inl RuntimeError
      else if \<not> list_all (\<lambda>d. - 1 \<le> d) shp then Inl RuntimeError
      else
        let newsize = nat (prod_list (filter (\<lambda>d. d \<noteq> - 1) shp));
            infer = (- 1 \<in> set shp)
        in if n = newsize \<or> (infer \<and> 0 < newsize \<and> n mod newsize = 0)
           then (if infer
                 then (if newsize = 0 then Inl RuntimeError
                       else Inr (map (\<lambda>d. if d = - 1 then n div newsize else nat d) shp))
                 else Inr (map nat shp))
           else Inl RuntimeError)"

definition reshape :: "int list \<Rightarrow> 'a tensor \<Rightarrow> error + 'a tensor" where
  "reshape shp t =
     (case infer_size shp (prod_list (shape t)) of
        Inl e \<Rightarrow> Inl e
      | Inr s \<Rightarrow> Inr \<lparr>shape = s, data = data t\<rparr>)"

text \<open>
  \<^verbatim>\<open>torch.cat((a, b), dim=1)\<close>: both tensors need an axis 1 and must agree on every
  other axis. (The one-dimensional empty tensors that \<^verbatim>\<open>torch.cat\<close> skips do not occur:
  \<^verbatim>\<open>drop_tokens\<close> passes a slice along axis 1 and a tensor reshaped to at least two axes.)
\<close>

definition cat_dim1 :: "'a tensor \<Rightarrow> 'a tensor \<Rightarrow> error + 'a tensor" where
  "cat_dim1 a b =
     (case shape a of
        Ba # La # Fa \<Rightarrow>
          (case shape b of
             Bb # Lb # Fb \<Rightarrow>
               if Ba = Bb \<and> Fa = Fb
               then Inr \<lparr>shape = Ba # (La + Lb) # Fa,
                         data = concat (map (\<lambda>i. chunk (La * prod_list Fa) i (data a) @
                                                  chunk (Lb * prod_list Fb) i (data b))
                                            [0..<Ba])\<rparr>
               else Inl RuntimeError
           | _ \<Rightarrow> Inl RuntimeError)
      | _ \<Rightarrow> Inl RuntimeError)"

section \<open>drop_tokens\<close>

text \<open>
  The first statement of \<^verbatim>\<open>drop_tokens\<close>: a non-zero \<^verbatim>\<open>num_prefix_tokens\<close> splits the
  tokens along axis 1 into the prefix and the rest; zero leaves them whole, with no prefix.
\<close>

definition split_prefix :: "'a tensor \<Rightarrow> int \<Rightarrow> error + ('a tensor option \<times> 'a tensor)" where
  "split_prefix tokens num_prefix_tokens =
     (if num_prefix_tokens \<noteq> 0
      then (case slice_to num_prefix_tokens tokens of
              Inl e \<Rightarrow> Inl e
            | Inr prefix_tokens \<Rightarrow>
                (case slice_from num_prefix_tokens tokens of
                   Inl e \<Rightarrow> Inl e
                 | Inr body \<Rightarrow> Inr (Some prefix_tokens, body)))
      else Inr (None, tokens))"

text \<open>
  The rest of the function: the assertion on the shapes, the selection of the kept
  positions, the reshape to \<^verbatim>\<open>(tokens_shape[0], -1, *tokens_shape[2:])\<close> and the
  concatenation with the prefix. The flag \<^verbatim>\<open>ordered\<close> is a parameter the body never reads.
\<close>

definition drop_tokens ::
  "'a tensor \<Rightarrow> int tensor \<Rightarrow> int \<Rightarrow> bool \<Rightarrow> error + 'a tensor" where
  "drop_tokens tokens msk num_prefix_tokens ordered =
     (case split_prefix tokens num_prefix_tokens of
        Inl e \<Rightarrow> Inl e
      | Inr (prefix_tokens, body) \<Rightarrow>
          if butlast (shape body) \<noteq> shape msk then Inl AssertionError
          else
            let tokens_shape = shape body in
            (case index_tuple body (nonzero_as_tuple msk) of
               Inl e \<Rightarrow> Inl e
             | Inr sel \<Rightarrow>
                 (case tokens_shape of
                    [] \<Rightarrow> Inl IndexError
                  | B # _ \<Rightarrow>
                      (case reshape (int B # - 1 # map int (drop 2 tokens_shape)) sel of
                         Inl e \<Rightarrow> Inl e
                       | Inr r \<Rightarrow>
                           (case prefix_tokens of
                              None \<Rightarrow> Inr r
                            | Some p \<Rightarrow> cat_dim1 p r)))))"

section \<open>torch_shape_get\<close>

text \<open>
  A Python object at a leaf of the structure, as far as the code looks at it: its type,
  a printable identity, and the attributes \<^verbatim>\<open>dtype\<close>, \<^verbatim>\<open>shape\<close>, \<^verbatim>\<open>element_size\<close> and
  \<^verbatim>\<open>nelement\<close>, each present (\<open>Some\<close>) or absent (\<open>None\<close>, where \<^verbatim>\<open>hasattr\<close> is false).
  \<open>elem_size\<close> and \<open>n_element\<close> hold what the two methods return.
\<close>

record pyobj =
  type_tag :: string
  repr :: string
  dtype :: "string option"
  obj_shape :: "nat list option"
  elem_size :: "nat option"
  n_element :: "nat option"

text \<open>
  The pytrees \<^verbatim>\<open>jax.tree_map\<close> walks: lists, tuples and dictionaries are inner nodes,
  \<^verbatim>\<open>None\<close> is a node without children (the mapped function is not called on it), and
  everything else is a leaf. A dictionary is the list of its items in the order the
  walk visits them.
\<close>

datatype 'a pytree =
    Leaf 'a
  | PyNone
  | PyList "'a pytree list"
  | PyTuple "'a pytree list"
  | PyDict "(string \<times> 'a pytree) list"

text \<open>
  What \<^verbatim>\<open>h_shape_get\<close> returns for a leaf: a tuple of entries, the type of the leaf,
  or the leaf itself. \<open>SizeMB q\<close> stands for the string \<^verbatim>\<open>f"{size:.2f}MB"\<close> of the size
  \<open>q\<close>; sizes are exact rationals here, where Python has floats.
\<close>

datatype entry = DType string | Shape "nat list" | TypeOf string | SizeMB rat

datatype descr = Tuple "entry list" | Type string | Value pyobj

text \<open>The value \<^verbatim>\<open>torch_shape_get\<close> returns: the dictionary with the total, or the tree alone.\<close>

datatype shape_result = WithTotal rat "descr pytree" | TreeOnly "descr pytree"

text \<open>
  \<^verbatim>\<open>tensor.element_size() * tensor.nelement() / (1024**s)\<close>; a missing method raises
  AttributeError.
\<close>

definition torch_memory_tensor :: "pyobj \<Rightarrow> nat \<Rightarrow> error + rat" where
  "torch_memory_tensor tensor s =
     (case elem_size tensor of
        None \<Rightarrow> Inl AttributeError
      | Some es \<Rightarrow>
          (case n_element tensor of
             None \<Rightarrow> Inl AttributeError
           | Some ne \<Rightarrow> Inr (of_nat (es * ne) / (1024 ^ s))))"

text \<open>
  The closure \<^verbatim>\<open>h_shape_get\<close>: its \<^verbatim>\<open>nonlocal total_size\<close> is passed in and returned.
\<close>

definition h_shape_get :: "bool \<Rightarrow> bool \<Rightarrow> pyobj \<Rightarrow> rat \<Rightarrow> error + (descr \<times> rat)" where
  "h_shape_get size_p type_only_p x total_size =
     (let res = [];
          res = (if dtype x \<noteq> None
                 then (let res = res @ [DType (the (dtype x))]
                       in if obj_shape x \<noteq> None then res @ [Shape (the (obj_shape x))] else res)
                 else if obj_shape x \<noteq> None
                 then res @ [TypeOf (type_tag x), Shape (the (obj_shape x))]
                 else res)
      in case (if size_p \<and> elem_size x \<noteq> None \<and> n_element x \<noteq> None
               then (case torch_memory_tensor x 2 of
                       Inl e \<Rightarrow> Inl e
                     | Inr sz \<Rightarrow> Inr (res @ [SizeMB sz], total_size + sz))
               else Inr (res, total_size)) of
           Inl e \<Rightarrow> Inl e
         | Inr (res, total_size) \<Rightarrow>
             Inr (if length res = 0
                  then (if type_only_p then Type (type_tag x) else Value x)
                  else Tuple res,
                  total_size))"

text \<open>
  \<^verbatim>\<open>jax.tree_map\<close> for a function with an effect on a running total: the leaves are
  visited left to right, the total is threaded through, and the result has the
  structure of the input. An exception at a leaf ends the walk.
\<close>

fun tree_map :: "('a \<Rightarrow> rat \<Rightarrow> error + ('b \<times> rat)) \<Rightarrow> 'a pytree \<Rightarrow> rat \<Rightarrow> error + ('b pytree \<times> rat)"
  and tree_map_list :: "('a \<Rightarrow> rat \<Rightarrow> error + ('b \<times> rat)) \<Rightarrow> 'a pytree list \<Rightarrow> rat \<Rightarrow> error + ('b pytree list \<times> rat)"
  and tree_map_items :: "('a \<Rightarrow> rat \<Rightarrow> error + ('b \<times> rat)) \<Rightarrow> (string \<times> 'a pytree) list \<Rightarrow> rat \<Rightarrow> error + ((string \<times> 'b pytree) list \<times> rat)"
where
  "tree_map f (Leaf x) s =
     (case f x s of Inl e \<Rightarrow> Inl e | Inr (y, s') \<Rightarrow> Inr (Leaf y, s'))"
| "tree_map f PyNone s = Inr (PyNone, s)"
| "tree_map f (PyList ts) s =
     (case tree_map_list f ts s of Inl e \<Rightarrow> Inl e | Inr (us, s') \<Rightarrow> Inr (PyList us, s'))"
| "tree_map f (PyTuple ts) s =
     (case tree_map_list f ts s of Inl e \<Rightarrow> Inl e | Inr (us, s') \<Rightarrow> Inr (PyTuple us, s'))"
| "tree_map f (PyDict kvs) s =
     (case tree_map_items f kvs s of Inl e \<Rightarrow> Inl e | Inr (us, s') \<Rightarrow> Inr (PyDict us, s'))"
| "tree_map_list f [] s = Inr ([], s)"
| "tree_map_list f (t # ts) s =
     (case tree_map f t s of
        Inl e \<Rightarrow> Inl e
      | Inr (u, s') \<Rightarrow>
          (case tree_map_list f ts s' of Inl e \<Rightarrow> Inl e | Inr (us, s'') \<Rightarrow> Inr (u # us, s'')))"
| "tree_map_items f [] s = Inr ([], s)"
| "tree_map_items f ((k, t) # kvs) s =
     (case tree_map f t s of
        Inl e \<Rightarrow> Inl e
      | Inr (u, s') \<Rightarrow>
          (case tree_map_items f kvs s' of
             Inl e \<Rightarrow> Inl e
           | Inr (us, s'') \<Rightarrow> Inr ((k, u) # us, s'')))"

definition torch_shape_get :: "pyobj pytree \<Rightarrow> bool \<Rightarrow> bool \<Rightarrow> error + shape_result" where
  "torch_shape_get input size_p type_only_p =
     (let total_size = 0 in
      case tree_map (h_shape_get size_p type_only_p) input total_size of
        Inl e \<Rightarrow> Inl e
      | Inr (res, total_size) \<Rightarrow>
          if size_p then Inr (WithTotal total_size res) else Inr (TreeOnly res))"

text \<open>The leaves of a structure, in the order of the walk.\<close>

fun leaves :: "'a pytree \<Rightarrow> 'a list" where
  "leaves (Leaf x) = [x]"
| "leaves PyNone = []"
| "leaves (PyList ts) = concat (map leaves ts)"
| "leaves (PyTuple ts) = concat (map leaves ts)"
| "leaves (PyDict kvs) = concat (map (\<lambda>kv. leaves (snd kv)) kvs)"

section \<open>Reference notions for drop_tokens\<close>

text \<open>The flat offsets of the non-zero entries of a mask, in row-major order.\<close>

definition nonzero_flat :: "int tensor \<Rightarrow> nat list" where
  "nonzero_flat m = filter (\<lambda>p. data m ! p \<noteq> 0) [0..<prod_list (shape m)]"

text \<open>The two parts of the split, for tokens with at least two axes.\<close>

definition prefix_part :: "'a tensor \<Rightarrow> int \<Rightarrow> 'a tensor" where
  "prefix_part tokens P =
     (case shape tokens of
        B # L # F \<Rightarrow>
          \<lparr>shape = B # slice_index L P # F,
           data = concat (map (\<lambda>b. take (slice_index L P * prod_list F)
                                      (drop (b * L * prod_list F) (data tokens))) [0..<B])\<rparr>
      | _ \<Rightarrow> tokens)"

definition body_part :: "'a tensor \<Rightarrow> int \<Rightarrow> 'a tensor" where
  "body_part tokens P =
     (if P = 0 then tokens
      else case shape tokens of
        B # L # F \<Rightarrow>
          \<lparr>shape = B # (L - slice_index L P) # F,
           data = concat (map (\<lambda>b. take ((L - slice_index L P) * prod_list F)
                                      (drop ((b * L + slice_index L P) * prod_list F) (data tokens)))
                              [0..<B])\<rparr>
      | _ \<Rightarrow> tokens)"

text \<open>
  Row \<open>r\<close> of a two-dimensional mask, the number of its non-zero entries (the
  \<^verbatim>\<open>mask[i].sum()\<close> of the source's comment, for a 0/1 mask), and the sum of these counts
  over the rows.
\<close>

definition mask_row :: "int tensor \<Rightarrow> nat \<Rightarrow> int list" where
  "mask_row m r = (case shape m of [B, L] \<Rightarrow> chunk L r (data m) | _ \<Rightarrow> [])"

definition keep_count :: "int tensor \<Rightarrow> nat \<Rightarrow> nat" where
  "keep_count m r = length (filter (\<lambda>x. x \<noteq> 0) (mask_row m r))"

definition total_keep :: "int tensor \<Rightarrow> nat" where
  "total_keep m = sum_list (map (keep_count m) [0..<hd (shape m)])"

text \<open>The gathered body positions, before the reshape.\<close>

definition selected :: "'a tensor \<Rightarrow> int tensor \<Rightarrow> int \<Rightarrow> 'a list" where
  "selected tokens msk P =
     concat (map (\<lambda>p. chunk (last (shape tokens)) p (data (body_part tokens P))) (nonzero_flat msk))"

text \<open>\<^verbatim>\<open>t[r]\<close> for \<open>r\<close> inside the first axis, and \<^verbatim>\<open>t[lo:]\<close> for \<open>lo\<close> at least zero.\<close>

definition row_at :: "'a tensor \<Rightarrow> nat \<Rightarrow> 'a tensor" where
  "row_at t r =
     \<lparr>shape = tl (shape t), data = chunk (prod_list (tl (shape t))) r (data t)\<rparr>"

definition from_dim0 :: "nat \<Rightarrow> 'a tensor \<Rightarrow> 'a tensor" where
  "from_dim0 lo t =
     \<lparr>shape = (hd (shape t) - lo) # tl (shape t),
      data = drop (lo * prod_list (tl (shape t))) (data t)\<rparr>"

text \<open>The kept positions of one mask row, as offsets inside the row.\<close>

definition row_kept :: "int tensor \<Rightarrow> nat \<Rightarrow> nat list" where
  "row_kept m r = filter (\<lambda>j. mask_row m r ! j \<noteq> 0) [0..<length (mask_row m r)]"

text \<open>What one row of the mask selects from one row of the body.\<close>

definition row_selected :: "'a list \<Rightarrow> nat \<Rightarrow> nat \<Rightarrow> int tensor \<Rightarrow> nat \<Rightarrow> 'a list" where
  "row_selected bd H L m r = concat (map (\<lambda>j. chunk H (r * L + j) bd) (row_kept m r))"

text \<open>
  Tensors for the examples: two batches of three tokens with two features each, and a
  mask over the two non-prefix positions that keeps one position per row.
\<close>

definition example_tokens :: "nat tensor" where
  "example_tokens = \<lparr>shape = [2, 3, 2], data = [0, 1, 2, 3, 4, 5, 6, 7, 8, 9, 10, 11]\<rparr>"

definition example_mask :: "int tensor" where
  "example_mask = \<lparr>shape = [2, 2], data = [1, 0, 0, 1]\<rparr>"

definition example_output :: "nat tensor" where
  "example_output = \<lparr>shape = [2, 2, 2], data = [0, 1, 2, 3, 6, 7, 10, 11]\<rparr>"

text \<open>The example of the docstring of \<^verbatim>\<open>drop_tokens\<close>: tokens, mask, and the printed result.\<close>

definition docstring_tokens :: "nat tensor" where
  "docstring_tokens =
     \<lparr>shape = [2, 5, 10],
      data = [16, 65, 37, 10, 71, 13, 59, 62, 78, 91,
              72, 76, 57, 34, 76, 91, 61, 2, 66, 28,
              22, 92, 8, 14, 93, 12, 45, 54, 27, 38,
              13, 37, 3, 56, 85, 24, 9, 22, 14, 97,
              69, 3, 49, 42, 80, 82, 8, 74, 21, 67,
              24, 33, 32, 39, 6, 89, 96, 90, 65, 79,
              80, 8, 86, 93, 34, 86, 9, 75, 63, 78,
              61, 89, 57, 55, 2, 84, 59, 65, 95, 23,
              31, 49, 97, 28, 23, 69, 96, 58, 46, 59,
              59, 15, 33, 29, 90, 59, 35, 16, 56, 73]\<rparr>"

definition docstring_mask :: "int tensor" where
  "docstring_mask = \<lparr>shape = [2, 4], data = [1, 0, 0, 1, 0, 1, 1, 0]\<rparr>"

definition docstring_output :: "nat tensor" where
  "docstring_output =
     \<lparr>shape = [2, 3, 10],
      data = [16, 65, 37, 10, 71, 13, 59, 62, 78, 91,
              72, 76, 57, 34, 76, 91, 61, 2, 66, 28,
              69, 3, 49, 42, 80, 82, 8, 74, 21, 67,
              24, 33, 32, 39, 6, 89, 96, 90, 65, 79,
              61, 89, 57, 55, 2, 84, 59, 65, 95, 23,
              31, 49, 97, 28, 23, 69, 96, 58, 46, 59]\<rparr>"

section \<open>Reference notions for torch_shape_get\<close>

text \<open>The footprint in megabytes of a buffer of \<open>element_count\<close> elements of the given size.\<close>

definition size_mb :: "nat \<Rightarrow> nat \<Rightarrow> rat" where
  "size_mb element_size_bytes element_count =
     of_nat element_size_bytes * of_nat element_count / 1024\<^sup>2"

text \<open>The footprint of a leaf that has both size attributes.\<close>

definition leaf_size_mb :: "pyobj \<Rightarrow> rat option" where
  "leaf_size_mb x =
     (case elem_size x of
        None \<Rightarrow> None
      | Some es \<Rightarrow> (case n_element x of None \<Rightarrow> None | Some ne \<Rightarrow> Some (size_mb es ne)))"

text \<open>The sum of the footprints of the leaves that have both size attributes.\<close>

definition spec_total_size_mb :: "pyobj pytree \<Rightarrow> rat" where
  "spec_total_size_mb input = sum_list (List.map_filter leaf_size_mb (leaves input))"

text \<open>The size entry appended to a descriptor, and the amount added to the total.\<close>

definition size_suffix :: "bool \<Rightarrow> pyobj \<Rightarrow> entry list" where
  "size_suffix size_p x =
     (case leaf_size_mb x of
        None \<Rightarrow> []
      | Some q \<Rightarrow> if size_p then [SizeMB q] else [])"

definition leaf_added :: "bool \<Rightarrow> pyobj \<Rightarrow> rat" where
  "leaf_added size_p x =
     (if size_p then (case leaf_size_mb x of None \<Rightarrow> 0 | Some q \<Rightarrow> q) else 0)"

text \<open>The descriptor of one leaf, as a function of the leaf alone.\<close>

definition leaf_descr :: "bool \<Rightarrow> bool \<Rightarrow> pyobj \<Rightarrow> descr" where
  "leaf_descr size_p type_only_p x =
     (let res = (case dtype x of
                   Some d \<Rightarrow>
                     (case obj_shape x of Some sh \<Rightarrow> [DType d, Shape sh] | None \<Rightarrow> [DType d])
                 | None \<Rightarrow>
                     (case obj_shape x of
                        Some sh \<Rightarrow> [TypeOf (type_tag x), Shape sh]
                      | None \<Rightarrow> []))
                @ size_suffix size_p x
      in if res = [] then (if type_only_p then Type (type_tag x) else Value x) else Tuple res)"

text \<open>Two leaves for the examples: a float32 tensor of shape (2, 3) and the integer 3.\<close>

definition example_array :: pyobj where
  "example_array =
     \<lparr>type_tag = ''Tensor'', repr = ''a'', dtype = Some ''float32'', obj_shape = Some [2, 3],
      elem_size = Some 4, n_element = Some 6\<rparr>"

definition example_scalar :: pyobj where
  "example_scalar =
     \<lparr>type_tag = ''int'', repr = ''3'', dtype = None, obj_shape = None,
      elem_size = None, n_element = None\<rparr>"

section \<open>Properties of torch_shape_get\<close>

lemma h_shape_get_eq:
  "h_shape_get size_p type_only_p x s =
     Inr (leaf_descr size_p type_only_p x, s + leaf_added size_p x)"
  by (cases "dtype x"; cases "obj_shape x"; cases "elem_size x"; cases "n_element x")
     (simp_all add: h_shape_get_def leaf_descr_def leaf_added_def size_suffix_def
        leaf_size_mb_def torch_memory_tensor_def size_mb_def Let_def)

text \<open>
  The walk never fails, mirrors the structure, and adds to the total what each leaf
  adds, in the order of the leaves.
\<close>

lemma tree_map_h_shape_get:
  "tree_map (h_shape_get sp ty) t s =
     Inr (map_pytree (leaf_descr sp ty) t, s + sum_list (map (leaf_added sp) (leaves t)))"
  "tree_map_list (h_shape_get sp ty) ts s =
     Inr (map (map_pytree (leaf_descr sp ty)) ts,
          s + sum_list (map (leaf_added sp) (concat (map leaves ts))))"
  "tree_map_items (h_shape_get sp ty) kvs s =
     Inr (map (map_prod id (map_pytree (leaf_descr sp ty))) kvs,
          s + sum_list (map (leaf_added sp) (concat (map (\<lambda>kv. leaves (snd kv)) kvs))))"
proof (induction "h_shape_get sp ty" t s and "h_shape_get sp ty" ts s
         and "h_shape_get sp ty" kvs s
       rule: tree_map_tree_map_list_tree_map_items.induct)
  case (1 x s)
  show ?case by (simp add: h_shape_get_eq)
next
  case (7 t ts s)
  show ?case using 7 by (simp add: add.assoc)
next
  case (9 k t kvs s)
  show ?case using 9 by (simp add: add.assoc)
qed simp_all

lemma sum_leaf_added_True:
  "sum_list (map (leaf_added True) xs) = sum_list (List.map_filter leaf_size_mb xs)"
  by (induction xs) (simp_all add: leaf_added_def split: option.splits)

lemma sum_leaf_added_False: "sum_list (map (leaf_added False) xs) = 0"
  by (induction xs) (simp_all add: leaf_added_def)

text \<open>
  C5: with \<open>size_p\<close> set, \<open>torch_shape_get\<close> returns the total together with the mirrored
  tree, and the total is the sum, over the leaves that have both size attributes, of
  element size times element count divided by \<open>1024\<^sup>2\<close>; with \<open>size_p\<close> unset it returns
  the mirrored tree alone. Sizes are exact rationals in this development, so the total
  is that sum exactly.
\<close>

theorem torch_shape_get_total:
  "torch_shape_get input True type_only_p =
     Inr (WithTotal (spec_total_size_mb input) (map_pytree (leaf_descr True type_only_p) input))
   \<and> torch_shape_get input False type_only_p =
     Inr (TreeOnly (map_pytree (leaf_descr False type_only_p) input))"
  by (simp add: torch_shape_get_def tree_map_h_shape_get sum_leaf_added_True
        sum_leaf_added_False spec_total_size_mb_def)

theorem torch_shape_get_total_witness:
  "torch_shape_get (PyDict [(''a'', Leaf example_array),
                            (''b'', PyList [Leaf example_array, Leaf example_scalar, PyNone])])
     True False =
   Inr (WithTotal (3 / 65536)
         (PyDict [(''a'', Leaf (Tuple [DType ''float32'', Shape [2, 3], SizeMB (3 / 131072)])),
                  (''b'', PyList [Leaf (Tuple [DType ''float32'', Shape [2, 3],
                                               SizeMB (3 / 131072)]),
                                  Leaf (Value example_scalar), PyNone])]))"
  using torch_shape_get_total
          [of "PyDict [(''a'', Leaf example_array),
                       (''b'', PyList [Leaf example_array, Leaf example_scalar, PyNone])]" False]
  by (simp add: spec_total_size_mb_def leaf_descr_def size_suffix_def leaf_size_mb_def
        size_mb_def example_array_def example_scalar_def)

text \<open>The whole call: it never fails, and it maps every leaf to its descriptor.\<close>

lemma torch_shape_get_eq:
  "torch_shape_get input size_p type_only_p =
     Inr ((if size_p then WithTotal (spec_total_size_mb input) else TreeOnly)
            (map_pytree (leaf_descr size_p type_only_p) input))"
  by (simp add: torch_shape_get_def tree_map_h_shape_get sum_leaf_added_True
        sum_leaf_added_False spec_total_size_mb_def)

lemma spec_total_leaf: "spec_total_size_mb (Leaf x) = leaf_added True x"
  by (simp add: spec_total_size_mb_def leaf_added_def split: option.splits)

text \<open>
  C6: \<open>torch_shape_get\<close> gives a leaf with both a \<^verbatim>\<open>dtype\<close> and a \<^verbatim>\<open>shape\<close> the descriptor
  (dtype, shape), and a leaf with a \<^verbatim>\<open>shape\<close> and no \<^verbatim>\<open>dtype\<close> the descriptor (type, shape):
  exactly that when sizes are not asked for, and followed by the size entry, and by
  nothing else, when sizes are asked for and the leaf has both size attributes. This
  holds for the call on the leaf alone and, as the call maps every leaf of a structure
  to its descriptor, for the leaf anywhere in a structure.
\<close>

theorem torch_shape_get_dispatch:
  "(dtype x = Some d \<and> obj_shape x = Some sh \<longrightarrow>
      torch_shape_get (Leaf x) False type_only_p =
        Inr (TreeOnly (Leaf (Tuple [DType d, Shape sh])))
      \<and> torch_shape_get (Leaf x) True type_only_p =
        Inr (WithTotal (leaf_added True x)
               (Leaf (Tuple ([DType d, Shape sh] @ size_suffix True x))))
      \<and> leaf_descr size_p type_only_p x = Tuple ([DType d, Shape sh] @ size_suffix size_p x))
   \<and> (dtype x = None \<and> obj_shape x = Some sh \<longrightarrow>
      torch_shape_get (Leaf x) False type_only_p =
        Inr (TreeOnly (Leaf (Tuple [TypeOf (type_tag x), Shape sh])))
      \<and> torch_shape_get (Leaf x) True type_only_p =
        Inr (WithTotal (leaf_added True x)
               (Leaf (Tuple ([TypeOf (type_tag x), Shape sh] @ size_suffix True x))))
      \<and> leaf_descr size_p type_only_p x =
          Tuple ([TypeOf (type_tag x), Shape sh] @ size_suffix size_p x))
   \<and> size_suffix False x = []
   \<and> (leaf_size_mb x = None \<longrightarrow> size_suffix True x = [])
   \<and> (\<forall>q. leaf_size_mb x = Some q \<longrightarrow> size_suffix True x = [SizeMB q])
   \<and> torch_shape_get input size_p type_only_p =
        Inr ((if size_p then WithTotal (spec_total_size_mb input) else TreeOnly)
               (map_pytree (leaf_descr size_p type_only_p) input))"
  by (simp add: torch_shape_get_eq spec_total_leaf leaf_descr_def size_suffix_def
        split: option.splits)

theorem torch_shape_get_dispatch_witness:
  "torch_shape_get (Leaf example_array) False False =
     Inr (TreeOnly (Leaf (Tuple [DType ''float32'', Shape [2, 3]])))
   \<and> torch_shape_get (Leaf (example_array\<lparr>dtype := None\<rparr>)) False False =
     Inr (TreeOnly (Leaf (Tuple [TypeOf ''Tensor'', Shape [2, 3]])))
   \<and> torch_shape_get (Leaf example_array) True False =
     Inr (WithTotal (3 / 131072)
            (Leaf (Tuple [DType ''float32'', Shape [2, 3], SizeMB (3 / 131072)])))
   \<and> torch_shape_get (PyList [Leaf example_array, PyDict [(''k'', Leaf example_array)]])
        False False =
     Inr (TreeOnly (PyList [Leaf (Tuple [DType ''float32'', Shape [2, 3]]),
                            PyDict [(''k'', Leaf (Tuple [DType ''float32'', Shape [2, 3]]))]]))"
  using torch_shape_get_dispatch
          [of example_array "''float32''" "[2, 3]" False False
              "PyList [Leaf example_array, PyDict [(''k'', Leaf example_array)]]"]
        torch_shape_get_dispatch
          [of "example_array\<lparr>dtype := None\<rparr>" "''float32''" "[2, 3]" False False PyNone]
  by (simp add: example_array_def leaf_added_def leaf_size_mb_def size_mb_def)

text \<open>
  C7, for the leaves the walk visits: \<open>torch_shape_get\<close> raises on no structure. A leaf
  with none of \<^verbatim>\<open>dtype\<close>, \<^verbatim>\<open>shape\<close>, \<^verbatim>\<open>element_size\<close> and \<^verbatim>\<open>nelement\<close> gets its type as
  descriptor when \<open>type_only_p\<close> is set and itself otherwise, alone or anywhere in a
  structure. \<^verbatim>\<open>None\<close> is not such a leaf: \<^verbatim>\<open>jax.tree_map\<close> does not call the closure on it,
  and it stays \<^verbatim>\<open>None\<close> in both modes.
\<close>

theorem unrecognized_leaf_fallback:
  assumes "dtype x = None" and "obj_shape x = None"
    and "elem_size x = None" and "n_element x = None"
  shows "h_shape_get size_p type_only_p x s =
           Inr (if type_only_p then Type (type_tag x) else Value x, s)
         \<and> torch_shape_get (Leaf x) size_p type_only_p =
           Inr ((if size_p then WithTotal 0 else TreeOnly)
                  (Leaf (if type_only_p then Type (type_tag x) else Value x)))
         \<and> leaf_descr size_p type_only_p x = (if type_only_p then Type (type_tag x) else Value x)
         \<and> torch_shape_get input size_p type_only_p =
             Inr ((if size_p then WithTotal (spec_total_size_mb input) else TreeOnly)
                    (map_pytree (leaf_descr size_p type_only_p) input))
         \<and> torch_shape_get PyNone size_p type_only_p =
             Inr ((if size_p then WithTotal 0 else TreeOnly) PyNone)"
  using assms
  by (simp add: torch_shape_get_eq spec_total_size_mb_def h_shape_get_eq leaf_descr_def
        leaf_added_def size_suffix_def leaf_size_mb_def)

theorem unrecognized_leaf_fallback_witness:
  "torch_shape_get (Leaf example_scalar) False False = Inr (TreeOnly (Leaf (Value example_scalar)))
   \<and> torch_shape_get (Leaf example_scalar) False True = Inr (TreeOnly (Leaf (Type ''int'')))
   \<and> torch_shape_get (Leaf example_scalar) True True = Inr (WithTotal 0 (Leaf (Type ''int'')))
   \<and> torch_shape_get (PyDict [(''a'', PyTuple [Leaf example_scalar, PyNone])]) False True =
       Inr (TreeOnly (PyDict [(''a'', PyTuple [Leaf (Type ''int''), PyNone])]))"
  using unrecognized_leaf_fallback [of example_scalar False False 0 PyNone]
        unrecognized_leaf_fallback
          [of example_scalar False True 0 "PyDict [(''a'', PyTuple [Leaf example_scalar, PyNone])]"]
        unrecognized_leaf_fallback [of example_scalar True True 0 PyNone]
  by (simp add: example_scalar_def)

theorem none_type_only_counterexample:
  "torch_shape_get PyNone False True = Inr (TreeOnly PyNone)
   \<and> torch_shape_get PyNone False True \<noteq> Inr (TreeOnly (Leaf (Type ''NoneType'')))
   \<and> torch_shape_get (PyList [PyNone]) True True = Inr (WithTotal 0 (PyList [PyNone]))"
  by (simp add: torch_shape_get_def)

text \<open>
  C10: \<open>torch_shape_get\<close> gives a leaf with a \<^verbatim>\<open>dtype\<close> and no \<^verbatim>\<open>shape\<close>, when sizes are not
  asked for or the leaf lacks a size attribute, the one-element descriptor (dtype,), not
  the fallback, alone or anywhere in a structure.
\<close>

theorem dtype_only_descriptor:
  assumes "dtype x = Some d" and "obj_shape x = None"
    and "\<not> size_p \<or> elem_size x = None \<or> n_element x = None"
  shows "h_shape_get size_p type_only_p x s = Inr (Tuple [DType d], s)
         \<and> torch_shape_get (Leaf x) size_p type_only_p =
             Inr ((if size_p then WithTotal 0 else TreeOnly) (Leaf (Tuple [DType d])))
         \<and> leaf_descr size_p type_only_p x = Tuple [DType d]
         \<and> torch_shape_get input size_p type_only_p =
             Inr ((if size_p then WithTotal (spec_total_size_mb input) else TreeOnly)
                    (map_pytree (leaf_descr size_p type_only_p) input))"
  using assms
  by (auto simp add: torch_shape_get_eq spec_total_size_mb_def h_shape_get_eq leaf_descr_def
        leaf_added_def size_suffix_def leaf_size_mb_def split: option.splits)

theorem dtype_only_descriptor_witness:
  "torch_shape_get (Leaf (example_array\<lparr>obj_shape := None, n_element := None\<rparr>)) True True =
     Inr (WithTotal 0 (Leaf (Tuple [DType ''float32''])))
   \<and> torch_shape_get (Leaf (example_array\<lparr>obj_shape := None\<rparr>)) False False =
     Inr (TreeOnly (Leaf (Tuple [DType ''float32''])))
   \<and> torch_shape_get (PyList [Leaf (example_array\<lparr>obj_shape := None\<rparr>), Leaf example_scalar])
        False False =
     Inr (TreeOnly (PyList [Leaf (Tuple [DType ''float32'']), Leaf (Value example_scalar)]))"
  using dtype_only_descriptor
          [of "example_array\<lparr>obj_shape := None, n_element := None\<rparr>" "''float32''" True True 0
              PyNone]
        dtype_only_descriptor
          [of "example_array\<lparr>obj_shape := None\<rparr>" "''float32''" False False 0
              "PyList [Leaf (example_array\<lparr>obj_shape := None\<rparr>), Leaf example_scalar]"]
  by (simp add: example_array_def example_scalar_def leaf_descr_def size_suffix_def
        leaf_size_mb_def)

section \<open>Lists, blocks and indices\<close>

lemma chunk_concat_equal:
  "\<lbrakk>\<forall>xs \<in> set xss. length xs = n; i < length xss\<rbrakk> \<Longrightarrow> chunk n i (concat xss) = xss ! i"
proof (induction xss arbitrary: i)
  case Nil
  then show ?case by simp
next
  case (Cons x xss)
  show ?case
  proof (cases i)
    case 0
    with Cons.prems show ?thesis by (simp add: chunk_def)
  next
    case (Suc j)
    with Cons.prems have "chunk n j (concat xss) = xss ! j"
      by (intro Cons.IH) auto
    with Suc Cons.prems show ?thesis by (simp add: chunk_def)
  qed
qed

lemma length_concat_equal:
  "\<forall>xs \<in> set xss. length xs = n \<Longrightarrow> length (concat xss) = length xss * n"
  by (induction xss) auto

lemma concat_chunks: "concat (map (\<lambda>i. chunk c i xs) [0..<B]) = take (B * c) xs"
proof (induction B)
  case 0
  show ?case by simp
next
  case (Suc B)
  have "take (B * c + c) xs = take (B * c) xs @ take c (drop (B * c) xs)"
    by (rule take_add)
  moreover have "Suc B * c = B * c + c" by simp
  ultimately show ?case using Suc by (simp add: chunk_def del: mult_Suc)
qed

lemma upt_rows: "[0..<B * L] = concat (map (\<lambda>r. map (\<lambda>j. r * L + j) [0..<L]) [0..<B])"
proof (induction B)
  case 0
  show ?case by simp
next
  case (Suc B)
  have a: "[0..<B * L + L] = [0..<B * L] @ [B * L..<B * L + L]"
    by (rule upt_add_eq_append) simp
  have "map (\<lambda>j. j + B * L) [0..<L] = [B * L..<L + B * L]"
    by (rule map_add_upt)
  then have b: "[B * L..<B * L + L] = map (\<lambda>j. B * L + j) [0..<L]"
    by (simp only: add.commute)
  have c: "Suc B * L = B * L + L" by simp
  have d: "concat (map f [0..<Suc B]) = concat (map f [0..<B]) @ f B" for f :: "nat \<Rightarrow> nat list"
    by simp
  show ?case unfolding c a b d Suc [symmetric] ..
qed

lemma chunk_chunk:
  assumes "j < L"
  shows "chunk H j (chunk (L * H) r xs) = chunk H (r * L + j) xs"
proof -
  from assms have "Suc j * H \<le> L * H" by (intro mult_le_mono1) simp
  then have le: "H \<le> L * H - j * H" by simp
  have "drop (j * H) (take (L * H) (drop (r * (L * H)) xs))
        = take (L * H - j * H) (drop (j * H + r * (L * H)) xs)"
    by (simp add: drop_take)
  moreover have "j * H + r * (L * H) = (r * L + j) * H"
    by (simp add: algebra_simps)
  ultimately show ?thesis using le
    by (simp add: chunk_def min_absorb1)
qed

lemma unravel_ravel:
  "p < prod_list s \<Longrightarrow>
     length (unravel_index s p) = length s \<and>
     (\<forall>d < length s. unravel_index s p ! d < s ! d) \<and>
     ravel_index s (unravel_index s p) = p"
proof (induction s arbitrary: p)
  case Nil
  then show ?case by simp
next
  case (Cons a s)
  let ?n = "prod_list s"
  from Cons.prems have n: "0 < ?n" by (cases "?n = 0") auto
  from Cons.prems have q: "p div ?n < a"
    by (simp add: less_mult_imp_div_less)
  from n have r: "p mod ?n < ?n" by simp
  note IH = Cons.IH [OF r]
  show ?case
  proof (intro conjI allI impI)
    show "length (unravel_index (a # s) p) = length (a # s)" using IH by simp
  next
    fix d assume "d < length (a # s)"
    then show "unravel_index (a # s) p ! d < (a # s) ! d"
      using IH q by (cases d) auto
  next
    show "ravel_index (a # s) (unravel_index (a # s) p) = p" using IH by simp
  qed
qed

lemma nonzero_flat_bound: "p \<in> set (nonzero_flat m) \<Longrightarrow> p < prod_list (shape m)"
  by (simp add: nonzero_flat_def)

lemma nonzero_as_tuple_eq:
  "shape m \<noteq> [] \<Longrightarrow>
     nonzero_as_tuple m =
       map (\<lambda>d. map (\<lambda>p. unravel_index (shape m) p ! d) (nonzero_flat m)) [0..<length (shape m)]"
  by (simp add: nonzero_as_tuple_def nonzero_flat_def Let_def comp_def)

lemma map_nth_fun: "map (\<lambda>j. f (xs ! j)) [0..<length xs] = map f xs"
proof -
  have "map f (map ((!) xs) [0..<length xs]) = map f xs" by (simp only: map_nth)
  then show ?thesis by (simp add: comp_def)
qed

lemma index_nonzero:
  assumes ne: "shape m \<noteq> []" and sh: "shape t = shape m @ F"
  shows "index_tuple t (nonzero_as_tuple m) =
           Inr \<lparr>shape = length (nonzero_flat m) # F,
                data = concat (map (\<lambda>p. chunk (prod_list F) p (data t)) (nonzero_flat m))\<rparr>"
proof -
  let ?s = "shape m" and ?nzs = "nonzero_flat m"
  let ?k = "length ?s"
  let ?cols = "map (\<lambda>d. map (\<lambda>p. unravel_index ?s p ! d) ?nzs) [0..<?k]"
  have cols: "nonzero_as_tuple m = ?cols" using ne by (rule nonzero_as_tuple_eq)
  from ne have k: "0 < ?k" by simp
  have len: "length ?cols = ?k" by simp
  have upt: "[0..<?k] = 0 # [1..<?k]" using k by (simp add: upt_conv_Cons)
  have n: "(case ?cols of [] \<Rightarrow> 0 | col # _ \<Rightarrow> length col) = length ?nzs"
    by (subst upt) simp
  have alln: "list_all (\<lambda>col. length col = length ?nzs) ?cols"
    by (simp add: list_all_iff)
  have bounds: "list_all (\<lambda>(col, d). list_all (\<lambda>i. i < d) col) (zip ?cols (shape t))"
  proof -
    have "list_all (\<lambda>i. i < d) col" if "(col, d) \<in> set (zip ?cols (shape t))" for col d
    proof -
      from that have "\<exists>a. ?cols ! a = col \<and> shape t ! a = d \<and> a < length ?cols"
        unfolding in_set_zip by auto
      then obtain a where a: "?cols ! a = col" "shape t ! a = d" "a < ?k"
        unfolding len by blast
      from a have d: "d = ?s ! a" by (simp add: sh nth_append)
      from a(1) a(3) have col: "col = map (\<lambda>p. unravel_index ?s p ! a) ?nzs" by simp
      show ?thesis
        unfolding col d list_all_iff
        using unravel_ravel nonzero_flat_bound a(3) by auto
    qed
    then show ?thesis by (auto simp add: list_all_iff)
  qed
  have tk: "take ?k (shape t) = ?s" and dr: "drop ?k (shape t) = F"
    by (simp_all add: sh)
  have row: "map (\<lambda>col. col ! j) ?cols = unravel_index ?s (?nzs ! j)" if "j < length ?nzs" for j
  proof -
    from that have "?nzs ! j \<in> set ?nzs" by simp
    then have "?nzs ! j < prod_list ?s" by (rule nonzero_flat_bound)
    then have l: "length (unravel_index ?s (?nzs ! j)) = ?k" using unravel_ravel by blast
    have "map (\<lambda>col. col ! j) ?cols = map (\<lambda>d. unravel_index ?s (?nzs ! j) ! d) [0..<?k]"
      using that by (simp add: comp_def)
    also have "\<dots> = unravel_index ?s (?nzs ! j)"
      using map_nth [of "unravel_index ?s (?nzs ! j)"] by (simp add: l)
    finally show ?thesis .
  qed
  have rav: "ravel_index ?s (map (\<lambda>col. col ! j) ?cols) = ?nzs ! j" if "j < length ?nzs" for j
  proof -
    from that have "?nzs ! j \<in> set ?nzs" by simp
    then have "?nzs ! j < prod_list ?s" by (rule nonzero_flat_bound)
    then show ?thesis using unravel_ravel row [OF that] by simp
  qed
  have dat: "map (\<lambda>j. chunk (prod_list F) (ravel_index ?s (map (\<lambda>col. col ! j) ?cols)) (data t))
               [0..<length ?nzs]
             = map (\<lambda>p. chunk (prod_list F) p (data t)) ?nzs"
  proof -
    have "map (\<lambda>j. chunk (prod_list F) (ravel_index ?s (map (\<lambda>col. col ! j) ?cols)) (data t))
               [0..<length ?nzs]
          = map (\<lambda>j. chunk (prod_list F) (?nzs ! j) (data t)) [0..<length ?nzs]"
    proof (rule map_cong [OF refl])
      fix j assume "j \<in> set [0..<length ?nzs]"
      then have "j < length ?nzs" by simp
      then show "chunk (prod_list F) (ravel_index ?s (map (\<lambda>col. col ! j) ?cols)) (data t)
                 = chunk (prod_list F) (?nzs ! j) (data t)"
        by (simp only: rav)
    qed
    also have "\<dots> = map (\<lambda>p. chunk (prod_list F) p (data t)) ?nzs"
      by (rule map_nth_fun [of "\<lambda>p. chunk (prod_list F) p (data t)" ?nzs])
    finally show ?thesis .
  qed
  have "index_tuple t ?cols =
          Inr \<lparr>shape = length ?nzs # F,
               data = concat (map (\<lambda>p. chunk (prod_list F) p (data t)) ?nzs)\<rparr>"
    unfolding index_tuple_def Let_def n len tk dr dat
    using k alln bounds by (simp add: sh)
  then show ?thesis by (simp only: cols)
qed

lemma index_tuple_no_assert: "index_tuple t ixs \<noteq> Inl AssertionError"
  by (simp add: index_tuple_def Let_def)

lemma reshape_no_assert: "reshape shp t \<noteq> Inl AssertionError"
  by (simp add: reshape_def infer_size_def Let_def split: sum.splits)

lemma cat_dim1_no_assert: "cat_dim1 a b \<noteq> Inl AssertionError"
  by (simp add: cat_dim1_def split: list.splits)

lemma slice_index_nat: "0 \<le> P \<Longrightarrow> P \<le> int L \<Longrightarrow> slice_index L P = nat P"
  by (simp add: slice_index_def)

lemma split_prefix_eq:
  "shape tokens = B # L # F \<Longrightarrow>
     split_prefix tokens P =
       Inr (if P \<noteq> 0 then Some (prefix_part tokens P) else None, body_part tokens P)"
  by (simp add: split_prefix_def slice_to_def slice_from_def slice_dim1_def prefix_part_def
        body_part_def)

lemma shape_body_part:
  "shape tokens = B # L # F \<Longrightarrow> shape (body_part tokens P) = B # (L - slice_index L P) # F"
  by (simp add: body_part_def slice_index_def)

lemma shape_prefix_part:
  "shape tokens = B # L # F \<Longrightarrow> shape (prefix_part tokens P) = B # slice_index L P # F"
  by (simp add: prefix_part_def)

text \<open>What the function computes once the split has succeeded.\<close>

lemma drop_tokens_eq:
  assumes "shape tokens = B # L # F"
  shows "drop_tokens tokens msk P ord =
     (if butlast (B # (L - slice_index L P) # F) \<noteq> shape msk then Inl AssertionError
      else case index_tuple (body_part tokens P) (nonzero_as_tuple msk) of
             Inl e \<Rightarrow> Inl e
           | Inr sel \<Rightarrow>
               (case reshape (int B # - 1 # map int F) sel of
                  Inl e \<Rightarrow> Inl e
                | Inr r \<Rightarrow> if P \<noteq> 0 then cat_dim1 (prefix_part tokens P) r else Inr r))"
  using assms
  by (simp add: drop_tokens_def split_prefix_eq shape_body_part split: sum.splits)

lemma drop_tokens_assert_iff:
  assumes "shape tokens = B # L # F"
  shows "(drop_tokens tokens msk P ord = Inl AssertionError) =
           (butlast (B # (L - slice_index L P) # F) \<noteq> shape msk)"
  using index_tuple_no_assert [of "body_part tokens P" "nonzero_as_tuple msk"]
    reshape_no_assert cat_dim1_no_assert
  by (auto simp add: drop_tokens_eq [OF assms] split: sum.splits)

lemma nat_int_mult: "nat (int B * int H) = B * H"
  by (simp add: nat_mult_distrib)

lemma reshape_rank3:
  "reshape [int B, - 1, int H] \<lparr>shape = [N, H], data = xs\<rparr> =
     (if 0 < B \<and> 0 < H \<and> B dvd N then Inr \<lparr>shape = [B, N div B, H], data = xs\<rparr>
      else Inl RuntimeError)"
proof (cases "0 < B \<and> 0 < H")
  case False
  then show ?thesis
    by (auto simp add: reshape_def infer_size_def Let_def nat_int_mult)
next
  case True
  then have m: "(N * H) mod (B * H) = 0 \<longleftrightarrow> B dvd N"
    by (simp add: mod_eq_0_iff_dvd)
  from True have d: "(N * H) div (B * H) = N div B" by simp
  from True show ?thesis
    by (auto simp add: reshape_def infer_size_def Let_def nat_int_mult m d)
qed

lemma filter_nth_upt: "map ((!) xs) (filter (\<lambda>p. P (xs ! p)) [0..<length xs]) = filter P xs"
proof -
  have "filter P (map ((!) xs) [0..<length xs]) = filter P xs" by (simp only: map_nth)
  then show ?thesis by (simp add: filter_map comp_def)
qed

lemma length_nonzero_flat:
  assumes "wf_tensor m"
  shows "length (nonzero_flat m) = length (filter (\<lambda>x. x \<noteq> 0) (data m))"
proof -
  from assms have l: "prod_list (shape m) = length (data m)" by (simp add: wf_tensor_def)
  have "length (map ((!) (data m)) (filter (\<lambda>p. data m ! p \<noteq> 0) [0..<length (data m)]))
        = length (filter (\<lambda>x. x \<noteq> 0) (data m))"
    by (simp only: filter_nth_upt [of "data m" "\<lambda>x. x \<noteq> 0"])
  then show ?thesis by (simp add: nonzero_flat_def l)
qed

lemma total_keep_eq:
  assumes wf: "wf_tensor m" and sh: "shape m = [B, L]"
  shows "length (nonzero_flat m) = total_keep m"
proof -
  from wf sh have l: "length (data m) = B * L" by (simp add: wf_tensor_def)
  have "data m = take (B * L) (data m)" using l by simp
  also have "\<dots> = concat (map (\<lambda>r. chunk L r (data m)) [0..<B])"
    by (simp only: concat_chunks)
  finally have d: "data m = concat (map (\<lambda>r. chunk L r (data m)) [0..<B])" .
  have "length (filter (\<lambda>x. x \<noteq> 0) (data m)) =
        length (filter (\<lambda>x. x \<noteq> 0) (concat (map (\<lambda>r. chunk L r (data m)) [0..<B])))"
    using d by simp
  also have "\<dots> = sum_list (map (\<lambda>r. length (filter (\<lambda>x. x \<noteq> 0) (chunk L r (data m)))) [0..<B])"
    by (simp add: filter_concat length_concat comp_def)
  also have "\<dots> = total_keep m"
  proof -
    have "keep_count m = (\<lambda>r. length (filter (\<lambda>x. x \<noteq> 0) (chunk L r (data m))))"
      by (rule ext) (simp add: keep_count_def mask_row_def sh)
    then show ?thesis by (simp add: total_keep_def sh)
  qed
  finally show ?thesis using length_nonzero_flat [OF wf] by simp
qed

lemma total_keep_equal:
  assumes "shape m = B # s" and "\<forall>r < B. keep_count m r = k"
  shows "total_keep m = B * k"
proof -
  have h: "map (keep_count m) [0..<B] = map (\<lambda>_. k) [0..<B]"
    using assms(2) by (intro map_cong) auto
  have "total_keep m = sum_list (map (keep_count m) [0..<B])"
    by (simp add: total_keep_def assms(1))
  also have "\<dots> = sum_list (map (\<lambda>_. k) [0..<B])" by (simp only: h)
  also have "\<dots> = B * k" by (simp add: sum_list_triv)
  finally show ?thesis .
qed

lemma drop_tokens_rank3:
  assumes sh: "shape tokens = [B, L, H]" and shm: "shape msk = [B, L - slice_index L P]"
  shows "drop_tokens tokens msk P ord =
     (if 0 < B \<and> 0 < H \<and> B dvd length (nonzero_flat msk)
      then (if P \<noteq> 0
            then cat_dim1 (prefix_part tokens P)
                   \<lparr>shape = [B, length (nonzero_flat msk) div B, H],
                    data = selected tokens msk P\<rparr>
            else Inr \<lparr>shape = [B, length (nonzero_flat msk) div B, H],
                      data = selected tokens msk P\<rparr>)
      else Inl RuntimeError)"
proof -
  have ne: "shape msk \<noteq> []" using shm by simp
  have sb: "shape (body_part tokens P) = shape msk @ [H]"
    using shape_body_part [OF sh, of P] shm by simp
  have sel: "index_tuple (body_part tokens P) (nonzero_as_tuple msk) =
               Inr \<lparr>shape = [length (nonzero_flat msk), H], data = selected tokens msk P\<rparr>"
    using index_nonzero [OF ne sb] by (simp add: selected_def sh)
  show ?thesis
    by (simp add: drop_tokens_eq [OF sh] shm sel reshape_rank3)
qed

lemma cat_dim1_shape:
  "shape a = [B, p, H] \<Longrightarrow>
     cat_dim1 a \<lparr>shape = [B, n, H], data = xs\<rparr> =
       Inr \<lparr>shape = [B, p + n, H],
            data = concat (map (\<lambda>i. chunk (p * H) i (data a) @ chunk (n * H) i xs) [0..<B])\<rparr>"
  by (simp add: cat_dim1_def)

lemma drop_tokens_rank3_shape:
  assumes sh: "shape tokens = [B, L, H]" and shm: "shape msk = [B, L - slice_index L P]"
  shows "(0 < B \<and> 0 < H \<and> B dvd length (nonzero_flat msk) \<longrightarrow>
            (\<exists>out. drop_tokens tokens msk P ord = Inr out \<and>
                   shape out = [B, slice_index L P + length (nonzero_flat msk) div B, H]))
         \<and> (\<not> (0 < B \<and> 0 < H \<and> B dvd length (nonzero_flat msk)) \<longrightarrow>
            drop_tokens tokens msk P ord = Inl RuntimeError)"
proof (cases "P = 0")
  case True
  with drop_tokens_rank3 [OF sh shm, of ord] show ?thesis
    by (simp add: slice_index_def)
next
  case False
  have "shape (prefix_part tokens P) = [B, slice_index L P, H]"
    using shape_prefix_part [OF sh] by simp
  with drop_tokens_rank3 [OF sh shm, of ord] False show ?thesis
    by (simp add: cat_dim1_shape)
qed

lemma map_int_facts:
  "filter (\<lambda>d. d = - 1) (map int F) = []"
  "filter (\<lambda>d. d \<noteq> - 1) (map int F) = map int F"
  "list_all (\<lambda>d. - 1 \<le> d) (map int F)"
  "- 1 \<notin> set (map int F)"
  "prod_list (map int F) = int (prod_list F)"
  "map (\<lambda>d. if d = - 1 then n else nat d) (map int F) = F"
  "map ((\<lambda>d. if d = - 1 then n else nat d) \<circ> int) F = F"
  by (induction F) (auto simp add: list_all_iff)

lemma reshape_back:
  assumes pos: "0 < B" "0 < prod_list F" and n: "N * H = B * L * prod_list F"
  shows "reshape (int B # - 1 # map int F) \<lparr>shape = [N, H], data = xs\<rparr> =
           Inr \<lparr>shape = B # L # F, data = xs\<rparr>"
proof -
  let ?ns = "B * prod_list F"
  have ns: "nat (int B * int (prod_list F)) = ?ns" by (simp add: nat_mult_distrib)
  from pos have p: "0 < ?ns" by simp
  have e: "N * H = ?ns * L" using n by (simp add: mult.assoc mult.left_commute mult.commute)
  then have m: "(N * H) mod ?ns = 0" by simp
  from e p have d: "(N * H) div ?ns = L" by simp
  show ?thesis
    using p m d
    by (simp add: reshape_def infer_size_def Let_def map_int_facts ns)
qed

lemma nonzero_flat_all:
  assumes "wf_tensor m" and "\<forall>x \<in> set (data m). x \<noteq> 0"
  shows "nonzero_flat m = [0..<prod_list (shape m)]"
proof -
  from assms(1) have l: "prod_list (shape m) = length (data m)" by (simp add: wf_tensor_def)
  have "filter (\<lambda>p. data m ! p \<noteq> 0) [0..<length (data m)] = [0..<length (data m)]"
    using assms(2) by (intro filter_True) simp
  then show ?thesis by (simp add: nonzero_flat_def l)
qed

lemma drop_tokens_all_true:
  assumes sh: "shape tokens = B # L # F" and wf: "wf_tensor tokens" and wfm: "wf_tensor msk"
    and shm: "shape msk = butlast (B # L # F)" and nz: "\<forall>x \<in> set (data msk). x \<noteq> 0"
    and pos: "0 < B" "0 < prod_list F"
  shows "drop_tokens tokens msk 0 ord = Inr tokens"
proof -
  define H where "H = last (B # L # F)"
  define n where "n = prod_list (shape msk)"
  have ne: "shape msk \<noteq> []" using shm by simp
  have app: "shape tokens = shape msk @ [H]"
    unfolding sh shm H_def by (rule append_butlast_last_id [symmetric]) simp
  have len: "length (data tokens) = n * H"
    using wf app by (simp add: wf_tensor_def n_def)
  have b0: "body_part tokens 0 = tokens" by (simp add: body_part_def)
  have "concat (map (\<lambda>p. chunk H p (data tokens)) [0..<n]) = take (n * H) (data tokens)"
    by (rule concat_chunks)
  then have dat: "concat (map (\<lambda>p. chunk H p (data tokens)) [0..<n]) = data tokens"
    using len by simp
  have sel: "index_tuple tokens (nonzero_as_tuple msk) = Inr \<lparr>shape = [n, H], data = data tokens\<rparr>"
    using index_nonzero [OF ne app] dat by (simp add: nonzero_flat_all [OF wfm nz] n_def)
  have "n * H = prod_list (shape tokens)" using app by (simp add: n_def)
  then have num: "n * H = B * L * prod_list F" by (simp add: sh mult.assoc)
  have chk: "butlast (B # (L - slice_index L 0) # F) = shape msk"
    by (simp add: shm slice_index_def)
  have "drop_tokens tokens msk 0 ord = Inr \<lparr>shape = B # L # F, data = data tokens\<rparr>"
    unfolding drop_tokens_eq [OF sh] chk b0 sel by (simp add: reshape_back [OF pos num])
  also have "\<lparr>shape = B # L # F, data = data tokens\<rparr> = tokens" using sh by simp
  finally show ?thesis .
qed

lemma slice_index_le: "slice_index L P \<le> L"
  by (auto simp add: slice_index_def max_def)

lemma length_chunk_row:
  assumes "b < B" and "length xs = B * c"
  shows "length (chunk c b xs) = c"
proof -
  from assms(1) have "Suc b * c \<le> B * c" by (intro mult_le_mono1) simp
  then show ?thesis using assms(2) by (simp add: chunk_def)
qed

lemma nth_chunk_row:
  assumes "b < B" and "length xs = B * c" and "j < c"
  shows "chunk c b xs ! j = xs ! (b * c + j)"
proof -
  from assms(1) have "b * c \<le> B * c" by (intro mult_le_mono1) simp
  then have "b * c \<le> length xs" using assms(2) by simp
  then show ?thesis using assms(3) by (simp add: chunk_def)
qed

text \<open>The rows of the body.\<close>

lemma body_part_rows:
  fixes P :: int
  assumes sh: "shape tokens = [B, L, H]" and wf: "wf_tensor tokens"
  defines "p \<equiv> slice_index L P"
  shows "length (data (body_part tokens P)) = B * ((L - p) * H)"
    and "r < B \<Longrightarrow> chunk ((L - p) * H) r (data (body_part tokens P)) =
                   drop (p * H) (chunk (L * H) r (data tokens))"
proof -
  let ?d = "data tokens"
  have len: "length ?d = B * (L * H)" using wf sh by (simp add: wf_tensor_def)
  have pL: "p \<le> L" by (simp add: p_def slice_index_le)
  let ?piece = "\<lambda>b. take ((L - p) * H) (drop ((b * L + p) * H) ?d)"
  have piece: "?piece b = drop (p * H) (chunk (L * H) b ?d)" for b
  proof -
    have "drop (p * H) (take (L * H) (drop (b * (L * H)) ?d))
          = take (L * H - p * H) (drop (p * H + b * (L * H)) ?d)"
      by (simp add: drop_take)
    moreover have "p * H + b * (L * H) = (b * L + p) * H" by (simp add: algebra_simps)
    moreover have "L * H - p * H = (L - p) * H" by (simp add: diff_mult_distrib)
    ultimately show ?thesis by (simp add: chunk_def)
  qed
  have plen: "length (?piece b) = (L - p) * H" if "b < B" for b
  proof -
    from that have "length (chunk (L * H) b ?d) = L * H"
      using len by (rule length_chunk_row)
    then show ?thesis unfolding piece by (simp add: diff_mult_distrib)
  qed
  have cases: "data (body_part tokens P) = concat (map ?piece [0..<B])"
  proof (cases "P = 0")
    case True
    then have "p = 0" by (simp add: p_def slice_index_def)
    have "concat (map (\<lambda>b. chunk (L * H) b ?d) [0..<B]) = take (B * (L * H)) ?d"
      by (rule concat_chunks)
    then have "concat (map (\<lambda>b. chunk (L * H) b ?d) [0..<B]) = ?d" using len by simp
    then have "concat (map ?piece [0..<B]) = ?d"
      unfolding piece using \<open>p = 0\<close> by simp
    then show ?thesis using True by (simp add: body_part_def)
  next
    case False
    then show ?thesis by (simp add: body_part_def sh p_def)
  qed
  have all: "\<forall>xs \<in> set (map ?piece [0..<B]). length xs = (L - p) * H"
    using plen by auto
  show "length (data (body_part tokens P)) = B * ((L - p) * H)"
    unfolding cases using length_concat_equal [OF all] by simp
  show "chunk ((L - p) * H) r (data (body_part tokens P)) =
          drop (p * H) (chunk (L * H) r (data tokens))" if "r < B"
    unfolding cases using chunk_concat_equal [OF all, of r] that by (simp add: piece)
qed

lemma prefix_part_rows:
  fixes P :: int
  assumes sh: "shape tokens = [B, L, H]" and wf: "wf_tensor tokens"
  defines "p \<equiv> slice_index L P"
  shows "length (data (prefix_part tokens P)) = B * (p * H)"
    and "r < B \<Longrightarrow> chunk (p * H) r (data (prefix_part tokens P)) =
                   take (p * H) (chunk (L * H) r (data tokens))"
proof -
  let ?d = "data tokens"
  have len: "length ?d = B * (L * H)" using wf sh by (simp add: wf_tensor_def)
  have pL: "p \<le> L" by (simp add: p_def slice_index_le)
  then have pH: "p * H \<le> L * H" by (rule mult_le_mono1)
  let ?piece = "\<lambda>b. take (p * H) (drop (b * L * H) ?d)"
  have piece: "?piece b = take (p * H) (chunk (L * H) b ?d)" for b
    using pH by (simp add: chunk_def min_absorb1 mult.assoc)
  have plen: "length (?piece b) = p * H" if "b < B" for b
  proof -
    from that have "length (chunk (L * H) b ?d) = L * H"
      using len by (rule length_chunk_row)
    then show ?thesis unfolding piece using pH by simp
  qed
  have cases: "data (prefix_part tokens P) = concat (map ?piece [0..<B])"
    by (simp add: prefix_part_def sh p_def)
  have all: "\<forall>xs \<in> set (map ?piece [0..<B]). length xs = p * H"
    using plen by auto
  show "length (data (prefix_part tokens P)) = B * (p * H)"
    unfolding cases using length_concat_equal [OF all] by simp
  show "chunk (p * H) r (data (prefix_part tokens P)) =
          take (p * H) (chunk (L * H) r (data tokens))" if "r < B"
    unfolding cases using chunk_concat_equal [OF all, of r] that by (simp add: piece)
qed

lemma concat_concat: "concat (concat xss) = concat (map concat xss)"
  by (induction xss) simp_all

lemma mask_row_facts:
  assumes sh: "shape m = [B, L]" and wf: "wf_tensor m" and r: "r < B"
  shows "mask_row m r = chunk L r (data m)"
    and "length (mask_row m r) = L"
    and "j < L \<Longrightarrow> mask_row m r ! j = data m ! (r * L + j)"
proof -
  have len: "length (data m) = B * L" using wf sh by (simp add: wf_tensor_def)
  show a: "mask_row m r = chunk L r (data m)" by (simp add: mask_row_def sh)
  show "length (mask_row m r) = L" unfolding a using r len by (rule length_chunk_row)
  show "mask_row m r ! j = data m ! (r * L + j)" if "j < L"
    unfolding a using r len that by (rule nth_chunk_row)
qed

lemma length_row_kept: "length (row_kept m r) = keep_count m r"
proof -
  have "length (map ((!) (mask_row m r)) (row_kept m r)) = keep_count m r"
    unfolding row_kept_def keep_count_def
    by (simp only: filter_nth_upt [of "mask_row m r" "\<lambda>x. x \<noteq> 0"])
  then show ?thesis by simp
qed

lemma nonzero_flat_rows:
  assumes sh: "shape m = [B, L]" and wf: "wf_tensor m"
  shows "nonzero_flat m = concat (map (\<lambda>r. map (\<lambda>j. r * L + j) (row_kept m r)) [0..<B])"
proof -
  have "nonzero_flat m = filter (\<lambda>p. data m ! p \<noteq> 0) [0..<B * L]"
    by (simp add: nonzero_flat_def sh)
  also have "\<dots> = concat (map (\<lambda>r. filter (\<lambda>p. data m ! p \<noteq> 0) (map (\<lambda>j. r * L + j) [0..<L]))
                             [0..<B])"
    by (subst upt_rows) (simp add: filter_concat comp_def)
  also have "\<dots> = concat (map (\<lambda>r. map (\<lambda>j. r * L + j) (row_kept m r)) [0..<B])"
  proof -
    have "filter (\<lambda>p. data m ! p \<noteq> 0) (map (\<lambda>j. r * L + j) [0..<L])
          = map (\<lambda>j. r * L + j) (row_kept m r)" if "r < B" for r
    proof -
      have "filter (\<lambda>j. data m ! (r * L + j) \<noteq> 0) [0..<L]
            = filter (\<lambda>j. mask_row m r ! j \<noteq> 0) [0..<L]"
        using mask_row_facts(3) [OF sh wf that] by (intro filter_cong) auto
      then show ?thesis
        by (simp add: filter_map comp_def row_kept_def mask_row_facts(2) [OF sh wf that])
    qed
    then have "map (\<lambda>r. filter (\<lambda>p. data m ! p \<noteq> 0) (map (\<lambda>j. r * L + j) [0..<L])) [0..<B]
               = map (\<lambda>r. map (\<lambda>j. r * L + j) (row_kept m r)) [0..<B]"
      by (intro map_cong) auto
    then show ?thesis by (simp only:)
  qed
  finally show ?thesis .
qed

lemma selected_rows:
  assumes sh: "shape tokens = [B, L, H]" and shm: "shape msk = [B, L']" and wfm: "wf_tensor msk"
  shows "selected tokens msk P =
           concat (map (row_selected (data (body_part tokens P)) H L' msk) [0..<B])"
proof -
  let ?bd = "data (body_part tokens P)"
  have "selected tokens msk P = concat (map (\<lambda>p. chunk H p ?bd) (nonzero_flat msk))"
    by (simp add: selected_def sh)
  also have "\<dots> = concat (map (\<lambda>r. concat (map (\<lambda>j. chunk H (r * L' + j) ?bd) (row_kept msk r)))
                             [0..<B])"
    unfolding nonzero_flat_rows [OF shm wfm]
    by (simp add: map_concat concat_concat comp_def)
  finally show ?thesis by (simp add: row_selected_def [abs_def])
qed

lemma length_row_selected:
  assumes len: "length bd = B * (L * H)" and shm: "shape msk = [B, L]" and wfm: "wf_tensor msk"
    and r: "r < B"
  shows "length (row_selected bd H L msk r) = keep_count msk r * H"
proof -
  have "length (chunk H (r * L + j) bd) = H" if "j \<in> set (row_kept msk r)" for j
  proof -
    from that have "j < L" by (simp add: row_kept_def mask_row_facts(2) [OF shm wfm r])
    from r have "Suc r * L \<le> B * L" by (intro mult_le_mono1) simp
    with \<open>j < L\<close> have "r * L + j < B * L" by simp
    moreover have "length bd = (B * L) * H" using len by (simp add: mult.assoc)
    ultimately show ?thesis by (rule length_chunk_row)
  qed
  then have "\<forall>xs \<in> set (map (\<lambda>j. chunk H (r * L + j) bd) (row_kept msk r)). length xs = H"
    by auto
  from length_concat_equal [OF this] show ?thesis
    by (simp add: row_selected_def length_row_kept)
qed

lemma row_kept_bound:
  assumes "shape m = [B, L]" and "wf_tensor m" and "r < B" and "j \<in> set (row_kept m r)"
  shows "j < L"
  using assms(4) by (simp add: row_kept_def mask_row_facts(2) [OF assms(1-3)])

text \<open>The right-hand side of the row equation: a row of the body indexed by its mask row.\<close>

lemma body_row_indexed:
  assumes sh: "shape tokens = [B, L, H]" and wf: "wf_tensor tokens"
    and shm: "shape msk = [B, L - slice_index L P]" and wfm: "wf_tensor msk" and r: "r < B"
  shows "index_tuple (from_dim0 (slice_index L P) (row_at tokens r))
                     (nonzero_as_tuple (row_at msk r)) =
           Inr \<lparr>shape = [keep_count msk r, H],
                data = row_selected (data (body_part tokens P)) H (L - slice_index L P) msk r\<rparr>"
proof -
  define p where "p = slice_index L P"
  define L' where "L' = L - p"
  define bd where "bd = data (body_part tokens P)"
  let ?x = "from_dim0 p (row_at tokens r)" and ?mr = "row_at msk r"
  have shm': "shape msk = [B, L']" using shm by (simp add: L'_def p_def)
  have xs: "shape ?x = [L', H]" by (simp add: from_dim0_def row_at_def sh L'_def)
  have xd: "data ?x = chunk (L' * H) r bd"
    using body_part_rows(2) [OF sh wf r, of P]
    by (simp add: from_dim0_def row_at_def sh L'_def p_def bd_def)
  have ms: "shape ?mr = [L']" by (simp add: row_at_def shm')
  have md: "data ?mr = mask_row msk r"
    by (simp add: row_at_def shm' mask_row_def)
  have nzr: "nonzero_flat ?mr = row_kept msk r"
    by (simp add: nonzero_flat_def ms md row_kept_def mask_row_facts(2) [OF shm' wfm r])
  have ne: "shape ?mr \<noteq> []" by (simp add: ms)
  have app: "shape ?x = shape ?mr @ [H]" by (simp add: xs ms)
  have "map (\<lambda>j. chunk H j (chunk (L' * H) r bd)) (row_kept msk r)
        = map (\<lambda>j. chunk H (r * L' + j) bd) (row_kept msk r)"
  proof (rule map_cong [OF refl])
    fix j assume "j \<in> set (row_kept msk r)"
    then have "j < L'" by (rule row_kept_bound [OF shm' wfm r])
    then show "chunk H j (chunk (L' * H) r bd) = chunk H (r * L' + j) bd"
      by (rule chunk_chunk)
  qed
  then have dat: "concat (map (\<lambda>j. chunk H j (chunk (L' * H) r bd)) (row_kept msk r))
                  = row_selected bd H L' msk r"
    by (simp only: row_selected_def)
  have "index_tuple ?x (nonzero_as_tuple ?mr) =
          Inr \<lparr>shape = [length (row_kept msk r), H],
               data = concat (map (\<lambda>j. chunk H j (chunk (L' * H) r bd)) (row_kept msk r))\<rparr>"
    using index_nonzero [OF ne app] by (simp add: nzr xd)
  then show ?thesis
    unfolding dat length_row_kept by (simp only: p_def L'_def bd_def)
qed

text \<open>The left-hand side: a row of the result, after its prefix.\<close>

lemma result_row:
  assumes sh: "shape tokens = [B, L, H]" and wf: "wf_tensor tokens"
    and shm: "shape msk = [B, L - slice_index L P]" and wfm: "wf_tensor msk"
    and eq: "\<forall>i < B. keep_count msk i = k"
    and res: "drop_tokens tokens msk P ord = Inr out" and r: "r < B"
  shows "from_dim0 (slice_index L P) (row_at out r) =
           \<lparr>shape = [k, H],
            data = row_selected (data (body_part tokens P)) H (L - slice_index L P) msk r\<rparr>"
proof -
  define p where "p = slice_index L P"
  define L' where "L' = L - p"
  define bd where "bd = data (body_part tokens P)"
  define sel where "sel = selected tokens msk P"
  define pd where "pd = data (prefix_part tokens P)"
  have shm': "shape msk = [B, L']" using shm by (simp add: L'_def p_def)
  have N: "length (nonzero_flat msk) = B * k"
    using total_keep_eq [OF wfm shm'] total_keep_equal [OF shm' eq] by simp
  from r have B: "0 < B" by simp
  then have Nk: "length (nonzero_flat msk) div B = k" by (simp add: N)
  have lbd: "length bd = B * (L' * H)"
    using body_part_rows(1) [OF sh wf, of P] by (simp add: bd_def L'_def p_def)
  have rows: "sel = concat (map (row_selected bd H L' msk) [0..<B])"
    using selected_rows [OF sh shm' wfm, of P] by (simp add: sel_def bd_def)
  have all: "\<forall>xs \<in> set (map (row_selected bd H L' msk) [0..<B]). length xs = k * H"
    using length_row_selected [OF lbd shm' wfm] eq by auto
  have lsel: "length sel = B * (k * H)"
    unfolding rows using length_concat_equal [OF all] by simp
  have selrow: "chunk (k * H) r sel = row_selected bd H L' msk r"
    unfolding rows using chunk_concat_equal [OF all, of r] r by simp
  have dt: "drop_tokens tokens msk P ord =
     (if 0 < B \<and> 0 < H \<and> B dvd length (nonzero_flat msk)
      then (if P \<noteq> 0
            then cat_dim1 (prefix_part tokens P) \<lparr>shape = [B, k, H], data = sel\<rparr>
            else Inr \<lparr>shape = [B, k, H], data = sel\<rparr>)
      else Inl RuntimeError)"
    using drop_tokens_rank3 [OF sh shm, of ord] by (simp add: Nk sel_def)
  have ok: "0 < B \<and> 0 < H \<and> B dvd length (nonzero_flat msk)"
    using dt res by (cases "0 < B \<and> 0 < H \<and> B dvd length (nonzero_flat msk)") simp_all
  show ?thesis
  proof (cases "P = 0")
    case True
    then have p0: "p = 0" by (simp add: p_def slice_index_def)
    from dt ok True res have out: "out = \<lparr>shape = [B, k, H], data = sel\<rparr>" by simp
    have "from_dim0 p (row_at out r) = \<lparr>shape = [k, H], data = chunk (k * H) r sel\<rparr>"
      by (simp add: from_dim0_def row_at_def out p0)
    then show ?thesis by (simp only: selrow p_def L'_def bd_def)
  next
    case False
    have sp: "shape (prefix_part tokens P) = [B, p, H]"
      using shape_prefix_part [OF sh] by (simp add: p_def)
    let ?row = "\<lambda>i. chunk (p * H) i pd @ chunk (k * H) i sel"
    from dt ok False res
    have out: "out = \<lparr>shape = [B, p + k, H], data = concat (map ?row [0..<B])\<rparr>"
      by (simp add: cat_dim1_shape [OF sp] pd_def)
    have lpd: "length pd = B * (p * H)"
      using prefix_part_rows(1) [OF sh wf, of P] by (simp add: pd_def p_def)
    have la: "length (chunk (p * H) i pd) = p * H" if "i < B" for i
      using that lpd by (rule length_chunk_row)
    have ls: "length (chunk (k * H) i sel) = k * H" if "i < B" for i
      using that lsel by (rule length_chunk_row)
    have allr: "\<forall>xs \<in> set (map ?row [0..<B]). length xs = (p + k) * H"
      using la ls by (auto simp add: add_mult_distrib)
    have "chunk ((p + k) * H) r (concat (map ?row [0..<B])) = ?row r"
      using chunk_concat_equal [OF allr, of r] r by simp
    then have "from_dim0 p (row_at out r) =
                 \<lparr>shape = [k, H], data = drop (p * H) (?row r)\<rparr>"
      by (simp add: from_dim0_def row_at_def out)
    also have "drop (p * H) (?row r) = chunk (k * H) r sel"
      using la [OF r] by simp
    finally show ?thesis by (simp only: selrow p_def L'_def bd_def)
  qed
qed

section \<open>Properties of drop_tokens\<close>

text \<open>The model reproduces the run printed in the docstring.\<close>

lemma docstring_example:
  "drop_tokens docstring_tokens docstring_mask 1 True = Inr docstring_output"
  by code_simp

text \<open>
  C1, for tokens with one feature axis: for tokens of shape [B, L, H] with B and H
  positive, a prefix length P between 0 and L, and a mask of shape [B, L - P] whose rows
  all keep k positions, drop_tokens returns a tensor of shape [B, P + k, H]. With another
  number of feature axes the assertion fails, and with B or H zero \<^verbatim>\<open>reshape\<close> cannot
  infer the middle axis.
\<close>

theorem drop_tokens_shape:
  assumes sh: "shape tokens = [B, L, H]" and B: "0 < B" and H: "0 < H"
    and P: "0 \<le> P" "P \<le> int L"
    and wfm: "wf_tensor msk" and shm: "shape msk = [B, L - nat P]"
    and eq: "\<forall>r < B. keep_count msk r = k"
  shows "\<exists>out. drop_tokens tokens msk P ordered = Inr out \<and> shape out = [B, nat P + k, H]"
proof -
  have p: "slice_index L P = nat P" using P by (rule slice_index_nat)
  have shm': "shape msk = [B, L - slice_index L P]" using shm by (simp add: p)
  have N: "length (nonzero_flat msk) = B * k"
    using total_keep_eq [OF wfm shm] total_keep_equal [OF shm eq] by simp
  from drop_tokens_rank3_shape [OF sh shm', of ordered] B H show ?thesis
    by (simp add: N p)
qed

lemma example_keep_counts: "\<forall>r < 2. keep_count example_mask r = 1"
proof (intro allI impI)
  fix r :: nat assume "r < 2"
  then have "r = 0 \<or> r = 1" by auto
  moreover have "keep_count example_mask 0 = 1" "keep_count example_mask 1 = 1"
    by code_simp+
  ultimately show "keep_count example_mask r = 1" by auto
qed

theorem drop_tokens_shape_witness:
  "\<exists>out. drop_tokens example_tokens example_mask 1 True = Inr out \<and> shape out = [2, 2, 2]"
proof -
  have "\<exists>out. drop_tokens example_tokens example_mask 1 True = Inr out \<and>
              shape out = [2, nat 1 + 1, 2]"
    using example_keep_counts
    by (intro drop_tokens_shape [where L = 3])
       (simp_all add: example_tokens_def example_mask_def wf_tensor_def)
  moreover have "nat 1 + 1 = (2 :: nat)" by simp
  ultimately show ?thesis by (simp only:)
qed

theorem drop_tokens_shape_counterexample:
  "keep_count \<lparr>shape = [1, 1], data = [1]\<rparr> 0 = 1
   \<and> drop_tokens \<lparr>shape = [1, 1, 1, 1], data = [7 :: nat]\<rparr> \<lparr>shape = [1, 1], data = [1]\<rparr> 0 True
       = Inl AssertionError
   \<and> drop_tokens \<lparr>shape = [1, 1, 0], data = ([] :: nat list)\<rparr> \<lparr>shape = [1, 1], data = [1]\<rparr> 0 True
       = Inl RuntimeError
   \<and> drop_tokens \<lparr>shape = [0, 1, 1], data = ([] :: nat list)\<rparr> \<lparr>shape = [0, 1], data = []\<rparr> 0 True
       = Inl RuntimeError"
  by code_simp

text \<open>
  C2, with the shape the code compares: the assertion compares the shape of the body
  without its last axis with the shape of the mask, and the call fails with
  AssertionError exactly when the two differ. For tokens with one feature axis that
  shape is [B, L - P]; with more feature axes, or none, it is not.
\<close>

theorem shape_check_iff:
  assumes sh: "shape tokens = B # L # F" and P: "0 \<le> P" "P \<le> int L"
  shows "(drop_tokens tokens msk P ordered = Inl AssertionError) =
           (butlast (B # (L - nat P) # F) \<noteq> shape msk)
         \<and> (F = [H] \<longrightarrow>
              (drop_tokens tokens msk P ordered = Inl AssertionError) =
                ([B, L - nat P] \<noteq> shape msk))"
proof -
  have p: "slice_index L P = nat P" using P by (rule slice_index_nat)
  have a: "(drop_tokens tokens msk P ordered = Inl AssertionError) =
             (butlast (B # (L - nat P) # F) \<noteq> shape msk)"
    using drop_tokens_assert_iff [OF sh, of msk P ordered] by (simp only: p)
  show ?thesis
  proof (intro conjI impI)
    show "(drop_tokens tokens msk P ordered = Inl AssertionError) =
            (butlast (B # (L - nat P) # F) \<noteq> shape msk)" by (rule a)
  next
    assume "F = [H]"
    then show "(drop_tokens tokens msk P ordered = Inl AssertionError) =
                 ([B, L - nat P] \<noteq> shape msk)"
      using a by simp
  qed
qed

theorem shape_check_iff_witness:
  "drop_tokens example_tokens example_mask 1 True \<noteq> Inl AssertionError
   \<and> drop_tokens example_tokens example_mask 0 True = Inl AssertionError"
  using shape_check_iff [of example_tokens 2 3 "[2]" 1 example_mask True 2]
        shape_check_iff [of example_tokens 2 3 "[2]" 0 example_mask True 2]
  by (simp add: example_tokens_def example_mask_def)

theorem shape_check_counterexample:
  "take 2 (shape \<lparr>shape = [1, 2, 1, 1], data = [1, 2 :: nat]\<rparr>) = shape \<lparr>shape = [1, 2], data = [1, 1 :: int]\<rparr>
   \<and> drop_tokens \<lparr>shape = [1, 2, 1, 1], data = [1, 2 :: nat]\<rparr> \<lparr>shape = [1, 2], data = [1, 1]\<rparr> 0 True
       = Inl AssertionError
   \<and> take 2 (shape \<lparr>shape = [1, 2], data = [1, 2 :: nat]\<rparr>) = shape \<lparr>shape = [1, 2], data = [1, 1 :: int]\<rparr>
   \<and> drop_tokens \<lparr>shape = [1, 2], data = [1, 2 :: nat]\<rparr> \<lparr>shape = [1, 2], data = [1, 1]\<rparr> 0 True
       = Inl AssertionError"
  by code_simp

lemma one_feature_axis: "butlast (B # L # F) = [B, L'] \<Longrightarrow> \<exists>H. F = [H]"
  by (cases F rule: rev_cases) (auto split: if_splits)

text \<open>
  C3: for tokens and a mask of shape [B, L - P] whose rows all keep the same number of
  positions, every row of the result, after its P prefix positions, is the row of the
  body indexed by the non-zero positions of the mask row, in ascending order:
  \<^verbatim>\<open>output[r, P:] == tokens[r, P:][nonzero(mask[r])]\<close>. The call returns a result
  whenever the tokens have one feature axis and B and H are positive.
\<close>

theorem drop_tokens_rows:
  assumes sh: "shape tokens = B # L # F" and wf: "wf_tensor tokens" and wfm: "wf_tensor msk"
    and P: "0 \<le> P" "P \<le> int L" and shm: "shape msk = [B, L - nat P]"
    and eq: "\<forall>r < B. keep_count msk r = k"
  shows "(F = [H] \<and> 0 < B \<and> 0 < H \<longrightarrow>
            (\<exists>out. drop_tokens tokens msk P ordered = Inr out))
         \<and> (\<forall>out r. drop_tokens tokens msk P ordered = Inr out \<and> r < B \<longrightarrow>
              index_tuple (from_dim0 (nat P) (row_at tokens r))
                          (nonzero_as_tuple (row_at msk r))
                = Inr (from_dim0 (nat P) (row_at out r)))"
proof (intro conjI impI allI)
  assume "F = [H] \<and> 0 < B \<and> 0 < H"
  then have sh3: "shape tokens = [B, L, H]" and B: "0 < B" and H: "0 < H"
    using sh by simp_all
  have p: "slice_index L P = nat P" using P by (rule slice_index_nat)
  have shm': "shape msk = [B, L - slice_index L P]" using shm by (simp add: p)
  have N: "length (nonzero_flat msk) = B * k"
    using total_keep_eq [OF wfm shm] total_keep_equal [OF shm eq] by simp
  from drop_tokens_rank3_shape [OF sh3 shm', of ordered] B H
  show "\<exists>out. drop_tokens tokens msk P ordered = Inr out"
    by (auto simp add: N)
next
  fix out r
  assume a: "drop_tokens tokens msk P ordered = Inr out \<and> r < B"
  then have res: "drop_tokens tokens msk P ordered = Inr out" and r: "r < B" by simp_all
  have p: "slice_index L P = nat P" using P by (rule slice_index_nat)
  have shm': "shape msk = [B, L - slice_index L P]" using shm by (simp add: p)
  from res have "drop_tokens tokens msk P ordered \<noteq> Inl AssertionError" by simp
  then have "butlast (B # (L - slice_index L P) # F) = shape msk"
    using drop_tokens_assert_iff [OF sh, of msk P ordered] by simp
  then have "butlast (B # (L - slice_index L P) # F) = [B, L - slice_index L P]"
    by (simp only: shm')
  then have "\<exists>H. F = [H]" by (rule one_feature_axis)
  then obtain H' where "F = [H']" ..
  then have sh3: "shape tokens = [B, L, H']" using sh by simp
  have "index_tuple (from_dim0 (slice_index L P) (row_at tokens r))
                    (nonzero_as_tuple (row_at msk r))
        = Inr (from_dim0 (slice_index L P) (row_at out r))"
    using body_row_indexed [OF sh3 wf shm' wfm r]
          result_row [OF sh3 wf shm' wfm eq res r] eq r
    by simp
  then show "index_tuple (from_dim0 (nat P) (row_at tokens r))
                         (nonzero_as_tuple (row_at msk r))
             = Inr (from_dim0 (nat P) (row_at out r))"
    by (simp only: p)
qed

lemma example_run: "drop_tokens example_tokens example_mask 1 True = Inr example_output"
  by code_simp

theorem drop_tokens_rows_witness:
  "drop_tokens example_tokens example_mask 1 True = Inr example_output
   \<and> index_tuple (from_dim0 1 (row_at example_tokens 1))
                  (nonzero_as_tuple (row_at example_mask 1))
       = Inr (from_dim0 1 (row_at example_output 1))
   \<and> from_dim0 1 (row_at example_output 1) = \<lparr>shape = [1, 2], data = [10, 11]\<rparr>"
proof -
  have "index_tuple (from_dim0 (nat 1) (row_at example_tokens 1))
                    (nonzero_as_tuple (row_at example_mask 1))
        = Inr (from_dim0 (nat 1) (row_at example_output 1))"
    using drop_tokens_rows [of example_tokens 2 3 "[2]" example_mask 1 1 2 True]
          example_keep_counts example_run
    by (simp add: example_tokens_def example_mask_def wf_tensor_def)
  moreover have "from_dim0 1 (row_at example_output 1) = \<lparr>shape = [1, 2], data = [10, 11]\<rparr>"
    by code_simp
  ultimately show ?thesis using example_run by simp
qed

text \<open>
  C4, as far as the code goes: the rows' keep counts are not compared. For tokens of shape [B, L, H]
  and a mask of shape [B, L - P], drop_tokens fails (in \<^verbatim>\<open>reshape\<close>) exactly when B or H is
  zero or B does not divide the number of non-zero mask entries; otherwise it returns a
  tensor of shape [B, P + total / B, H], also when the rows keep different numbers of
  positions.
\<close>

theorem drop_tokens_any_counts:
  assumes sh: "shape tokens = [B, L, H]" and P: "0 \<le> P" "P \<le> int L"
    and wfm: "wf_tensor msk" and shm: "shape msk = [B, L - nat P]"
  shows "(0 < B \<and> 0 < H \<and> B dvd total_keep msk \<longrightarrow>
            (\<exists>out. drop_tokens tokens msk P ordered = Inr out \<and>
                   shape out = [B, nat P + total_keep msk div B, H]))
         \<and> (\<not> (0 < B \<and> 0 < H \<and> B dvd total_keep msk) \<longrightarrow>
            drop_tokens tokens msk P ordered = Inl RuntimeError)"
proof -
  have p: "slice_index L P = nat P" using P by (rule slice_index_nat)
  have shm': "shape msk = [B, L - slice_index L P]" using shm by (simp add: p)
  have N: "length (nonzero_flat msk) = total_keep msk"
    using wfm shm by (rule total_keep_eq)
  from drop_tokens_rank3_shape [OF sh shm', of ordered] show ?thesis
    by (simp only: N p)
qed

theorem drop_tokens_any_counts_witness:
  "drop_tokens \<lparr>shape = [2, 2, 1], data = [10, 11, 12, 13 :: nat]\<rparr>
               \<lparr>shape = [2, 2], data = [1, 1, 1, 0]\<rparr> 0 True = Inl RuntimeError
   \<and> (\<exists>out. drop_tokens \<lparr>shape = [2, 3, 1], data = [0, 1, 2, 3, 4, 5 :: nat]\<rparr>
                          \<lparr>shape = [2, 2], data = [1, 1, 0, 0]\<rparr> 1 True = Inr out
             \<and> shape out = [2, 2, 1])"
proof -
  have t1: "total_keep \<lparr>shape = [2, 2], data = [1, 1, 1, 0]\<rparr> = 3" by code_simp
  have t2: "total_keep \<lparr>shape = [2, 2], data = [1, 1, 0, 0]\<rparr> = 2" by code_simp
  have a: "drop_tokens \<lparr>shape = [2, 2, 1], data = [10, 11, 12, 13 :: nat]\<rparr>
             \<lparr>shape = [2, 2], data = [1, 1, 1, 0]\<rparr> 0 True = Inl RuntimeError"
    using drop_tokens_any_counts
            [of "\<lparr>shape = [2, 2, 1], data = [10, 11, 12, 13 :: nat]\<rparr>" 2 2 1 0
                "\<lparr>shape = [2, 2], data = [1, 1, 1, 0]\<rparr>" True]
    by (simp add: wf_tensor_def t1)
  have "\<exists>out. drop_tokens \<lparr>shape = [2, 3, 1], data = [0, 1, 2, 3, 4, 5 :: nat]\<rparr>
                \<lparr>shape = [2, 2], data = [1, 1, 0, 0]\<rparr> 1 True = Inr out
              \<and> shape out = [2, nat 1 + 2 div 2, 1]"
    using drop_tokens_any_counts
            [of "\<lparr>shape = [2, 3, 1], data = [0, 1, 2, 3, 4, 5 :: nat]\<rparr>" 2 3 1 1
                "\<lparr>shape = [2, 2], data = [1, 1, 0, 0]\<rparr>" True]
    by (simp add: wf_tensor_def t2)
  moreover have "nat 1 + 2 div 2 = (2 :: nat)" by simp
  ultimately have "\<exists>out. drop_tokens \<lparr>shape = [2, 3, 1], data = [0, 1, 2, 3, 4, 5 :: nat]\<rparr>
                \<lparr>shape = [2, 2], data = [1, 1, 0, 0]\<rparr> 1 True = Inr out
              \<and> shape out = [2, 2, 1]"
    by (simp only:)
  with a show ?thesis by (rule conjI)
qed

theorem unequal_counts_counterexample:
  "keep_count \<lparr>shape = [2, 2], data = [1, 1, 0, 0]\<rparr> 0 = 2
   \<and> keep_count \<lparr>shape = [2, 2], data = [1, 1, 0, 0]\<rparr> 1 = 0
   \<and> drop_tokens \<lparr>shape = [2, 2, 1], data = [10, 11, 12, 13 :: nat]\<rparr>
                  \<lparr>shape = [2, 2], data = [1, 1, 0, 0]\<rparr> 0 True
       = Inr \<lparr>shape = [2, 1, 1], data = [10, 11]\<rparr>"
  by code_simp

text \<open>
  C8, for non-empty batch and features: for tokens with at least two axes, a positive
  batch size and positive feature sizes, and an all-non-zero mask whose shape is the
  shape of the tokens without the last axis, drop_tokens with no prefix returns the
  tokens unchanged. With a batch or feature size of zero \<^verbatim>\<open>reshape\<close> raises.
\<close>

theorem all_true_identity:
  assumes "shape tokens = B # L # F" and "wf_tensor tokens" and "wf_tensor msk"
    and "shape msk = butlast (B # L # F)" and "\<forall>x \<in> set (data msk). x \<noteq> 0"
    and "0 < B" and "0 < prod_list F"
  shows "drop_tokens tokens msk 0 ordered = Inr tokens"
  using assms by (rule drop_tokens_all_true)

theorem all_true_identity_witness:
  "drop_tokens example_tokens \<lparr>shape = [2, 3], data = [1, 1, 1, 1, 1, 1]\<rparr> 0 True
     = Inr example_tokens"
  using all_true_identity
          [of example_tokens 2 3 "[2]" "\<lparr>shape = [2, 3], data = [1, 1, 1, 1, 1, 1]\<rparr>" True]
  by (simp add: example_tokens_def wf_tensor_def)

theorem all_true_identity_counterexample:
  "drop_tokens \<lparr>shape = [2, 1, 0], data = ([] :: nat list)\<rparr>
               \<lparr>shape = [2, 1], data = [1, 1]\<rparr> 0 True = Inl RuntimeError
   \<and> drop_tokens \<lparr>shape = [0, 2, 3], data = ([] :: nat list)\<rparr>
                  \<lparr>shape = [0, 2], data = []\<rparr> 0 True = Inl RuntimeError"
  by code_simp

text \<open>
  C9: the flag \<^verbatim>\<open>ordered\<close> has no effect: the two values of the flag give the same
  result (or the same error) on every input.
\<close>

theorem ordered_flag_inert:
  "drop_tokens tokens msk num_prefix_tokens True = drop_tokens tokens msk num_prefix_tokens False"
  by (simp add: drop_tokens_def)

end
